theory Spec2Isabelle
  imports Complex_Main
begin

section \<open>Errors, rows and 64-bit integers\<close>

text \<open>
  A shallow embedding of pennybase (a file-backed store written in Go): the append-only
  row log \<^verbatim>\<open>csvDB\<close>, the schema projection, the collection store, the
  authorization scan and the session signer.

  An error value of the Go code is a constructor of \<open>error\<close>; the names follow the
  message of the \<^verbatim>\<open>errors.New\<close> call. A run-time panic of Go (an index out of
  range, a failed type assertion, \<^verbatim>\<open>regexp.MustCompile\<close> on a bad pattern) is the
  value \<open>Panic\<close>. Failures of the file system itself (seek, write, flush) are outside
  the model: the file is always readable and writable.
\<close>

datatype error =
    ErrInvalidRecord            \<comment> \<open>"invalid record"\<close>
  | ErrInvalidVersion           \<comment> \<open>"invalid record version"\<close>
  | ErrNotFound                 \<comment> \<open>"record not found"\<close>
  | ErrCorruptedIndex           \<comment> \<open>"corrupted index"\<close>
  | ErrEOF                      \<comment> \<open>io.EOF\<close>
  | ErrCSV                      \<comment> \<open>a csv.ParseError of the reader\<close>
  | ErrNumSyntax                \<comment> \<open>strconv.ErrSyntax\<close>
  | ErrNumRange                 \<comment> \<open>strconv.ErrRange\<close>
  | ErrInvalidField string      \<comment> \<open>"invalid field ..."\<close>
  | ErrShortRecord              \<comment> \<open>"record length ... is less than schema length ..."\<close>
  | ErrUnknownFieldType         \<comment> \<open>"unknown field type ..."\<close>
  | ErrResourceNotFound         \<comment> \<open>"resource ... not found"\<close>
  | ErrRecordNotFound error     \<comment> \<open>"record not found: %w"\<close>
  | ErrPermissions error        \<comment> \<open>"permissions error: %w"\<close>
  | ErrUnauthenticated          \<comment> \<open>"unauthenticated"\<close>
  | ErrUnauthorized             \<comment> \<open>"unauthorized"\<close>
  | Panic

type_synonym Record = "string list"

text \<open>
  An \<^verbatim>\<open>int64\<close> is an integer of the range below; \<open>wrap64\<close> is the value an
  arithmetic result has after Go's silent wrap-around.
\<close>

definition int64 :: "int \<Rightarrow> bool" where
  "int64 n = (- (2 ^ 63) \<le> n \<and> n < 2 ^ 63)"

definition wrap64 :: "int \<Rightarrow> int" where
  "wrap64 n = (n + 2 ^ 63) mod 2 ^ 64 - 2 ^ 63"

subsection \<open>strconv.FormatInt and strconv.ParseInt, base 10\<close>

text \<open>A decimal digit is a byte from 48 (the character 0) to 57 (the character 9).\<close>

definition digit_char :: "nat \<Rightarrow> char" where
  "digit_char d = ''0123456789'' ! d"

definition digit_val :: "char \<Rightarrow> nat option" where
  "digit_val c =
     (let n = (of_char c :: nat) in if 48 \<le> n \<and> n \<le> 57 then Some (n - 48) else None)"

function fmt_nat :: "nat \<Rightarrow> string" where
  "fmt_nat n = (if n < 10 then [digit_char n] else fmt_nat (n div 10) @ [digit_char (n mod 10)])"
  by pat_completeness auto
termination
  by (relation "measure id") auto

declare fmt_nat.simps [simp del]

definition FormatInt :: "int \<Rightarrow> string" where
  "FormatInt i = (if i < 0 then CHR ''-'' # fmt_nat (nat (- i)) else fmt_nat (nat i))"

text \<open>
  \<^verbatim>\<open>strconv.ParseUint(s, 10, 64)\<close> reads the digits left to right and stops at the
  first character that is no digit (a syntax error) or at the first digit that takes the
  value beyond \<open>2^64 - 1\<close> (a range error), whichever comes first.
\<close>

fun parse_uint :: "nat \<Rightarrow> string \<Rightarrow> error + nat" where
  "parse_uint acc [] = Inr acc"
| "parse_uint acc (c # cs) =
     (case digit_val c of
        None \<Rightarrow> Inl ErrNumSyntax
      | Some d \<Rightarrow> if acc * 10 + d \<ge> 2 ^ 64 then Inl ErrNumRange else parse_uint (acc * 10 + d) cs)"

definition ParseUint :: "string \<Rightarrow> error + nat" where
  "ParseUint s = (if s = [] then Inl ErrNumSyntax else parse_uint 0 s)"

text \<open>
  \<^verbatim>\<open>strconv.ParseInt(s, 10, 64)\<close> returns a value together with an error: the value
  is 0 after a syntax error and the nearest bound after a range error.
\<close>

definition ParseInt :: "string \<Rightarrow> int \<times> error option" where
  "ParseInt s =
     (if s = [] then (0, Some ErrNumSyntax)
      else
        let neg = (hd s = CHR ''-'');
            body = (if hd s = CHR ''+'' \<or> hd s = CHR ''-'' then tl s else s)
        in case ParseUint body of
             Inl ErrNumRange \<Rightarrow> (if neg then - (2 ^ 63) else 2 ^ 63 - 1, Some ErrNumRange)
           | Inl e \<Rightarrow> (0, Some e)
           | Inr un \<Rightarrow>
               if \<not> neg \<and> un \<ge> 2 ^ 63 then (2 ^ 63 - 1, Some ErrNumRange)
               else if neg \<and> un > 2 ^ 63 then (- (2 ^ 63), Some ErrNumRange)
               else (if neg then - int un else int un, None))"

section \<open>The row log: csvDB\<close>

text \<open>
  The file is the sequence of records that \<^verbatim>\<open>csv.Reader.Read\<close> returns for it,
  front to back; a stretch of the file that the reader refuses is \<open>Malformed\<close>. The
  byte offset of a record is modelled by its position in that sequence: the writer's
  end-of-file offset before a row is written (\<^verbatim>\<open>Seek(0, io.SeekEnd)\<close>) and the
  reader's \<^verbatim>\<open>InputOffset()\<close> before the same row is read are the same offset, so
  both are the number of records before it.
\<close>

datatype fline = Row Record | Malformed

text \<open>
  What Go's \<^verbatim>\<open>encoding/csv\<close> reads back for a record its writer wrote. The codec
  is loss-free but for two documented points of the package: "Carriage returns before
  newline characters are silently removed" (also inside a quoted field, so every CR LF
  of a field comes back as LF), and a record that is written as an empty line (no field,
  or one empty field) is skipped by the reader ("Blank lines are ignored").
\<close>

fun crlf_to_lf :: "string \<Rightarrow> string" where
  "crlf_to_lf [] = []"
| "crlf_to_lf [c] = [c]"
| "crlf_to_lf (c # d # cs) =
     (if c = CHR 0x0D \<and> d = CHR 0x0A then d # crlf_to_lf cs else c # crlf_to_lf (d # cs))"

definition csv_written :: "Record \<Rightarrow> fline list" where
  "csv_written r = (if r = [] \<or> r = [[]] then [] else [Row (map crlf_to_lf r)])"

record csvDB =
  rows :: "fline list"               \<comment> \<open>the content of the file \<^verbatim>\<open>f\<close>\<close>
  index :: "string \<rightharpoonup> nat"          \<comment> \<open>\<^verbatim>\<open>map[string]int64\<close>: offset of the latest row\<close>
  version :: "string \<rightharpoonup> int"        \<comment> \<open>\<^verbatim>\<open>map[string]int64\<close>: current version\<close>

text \<open>Reading a Go map at a missing key gives the zero value: \<^verbatim>\<open>db.version[id]\<close>.\<close>

definition ver :: "csvDB \<Rightarrow> string \<Rightarrow> int" where
  "ver db ident = (case version db ident of None \<Rightarrow> 0 | Some v \<Rightarrow> v)"

text \<open>
  \<^verbatim>\<open>NewCSVDB\<close>: the scan of the file at open, which fills the two maps of the
  new \<^verbatim>\<open>csvDB\<close> (\<open>idx\<close> is \<^verbatim>\<open>db.index\<close>, \<open>vers\<close> is \<^verbatim>\<open>db.version\<close>). A
  record with one field makes \<^verbatim>\<open>rec[1]\<close> panic; the error of \<^verbatim>\<open>ParseInt\<close> is
  dropped and its value kept.
\<close>

fun NewCSVDB_scan ::
  "(string \<rightharpoonup> nat) \<Rightarrow> (string \<rightharpoonup> int) \<Rightarrow> nat \<Rightarrow> fline list \<Rightarrow>
     error + (string \<rightharpoonup> nat) \<times> (string \<rightharpoonup> int)" where
  "NewCSVDB_scan idx vers pos [] = Inr (idx, vers)"
| "NewCSVDB_scan idx vers pos (Malformed # rest) = Inl ErrCSV"
| "NewCSVDB_scan idx vers pos (Row rec # rest) =
     (if length rec > 0 then
        (if length rec < 2 then Inl Panic
         else NewCSVDB_scan (idx(rec ! 0 \<mapsto> pos)) (vers(rec ! 0 \<mapsto> fst (ParseInt (rec ! 1))))
                (Suc pos) rest)
      else NewCSVDB_scan idx vers (Suc pos) rest)"

definition NewCSVDB :: "fline list \<Rightarrow> error + csvDB" where
  "NewCSVDB content =
     (case NewCSVDB_scan Map.empty Map.empty 0 content of
        Inl e \<Rightarrow> Inl e
      | Inr (idx, vers) \<Rightarrow> Inr \<lparr>rows = content, index = idx, version = vers\<rparr>)"

text \<open>
  The operations return the state after the call together with the error
  (\<open>None\<close> for \<^verbatim>\<open>nil\<close>), since Go returns an error and keeps the state it has
  reached. \<^verbatim>\<open>append\<close> writes the row, then indexes \<^verbatim>\<open>r[0]\<close>, then parses
  \<^verbatim>\<open>r[1]\<close>.
\<close>

definition append :: "csvDB \<Rightarrow> Record \<Rightarrow> csvDB \<times> error option" where
  "append db r =
     (let pos = length (rows db);
          db1 = db\<lparr>rows := rows db @ csv_written r\<rparr>
      in if length r < 1 then (db1, Some Panic)
         else
           let db2 = db1\<lparr>index := (index db1)(r ! 0 \<mapsto> pos)\<rparr>
           in if length r < 2 then (db2, Some Panic)
              else (db2\<lparr>version := (version db2)(r ! 0 \<mapsto> fst (ParseInt (r ! 1)))\<rparr>,
                    snd (ParseInt (r ! 1))))"

definition Create :: "csvDB \<Rightarrow> Record \<Rightarrow> csvDB \<times> error option" where
  "Create db r =
     (if length r < 1 then (db, Some Panic)
      else if r ! 0 = [] then (db, Some ErrInvalidRecord)
      else if length r < 2 then (db, Some Panic)
      else if r ! 1 = ''1'' \<and> ver db (r ! 0) = 0 then append db r
      else (db, Some ErrInvalidRecord))"

definition Update :: "csvDB \<Rightarrow> Record \<Rightarrow> csvDB \<times> error option" where
  "Update db r =
     (if length r = 0 then (db, Some ErrInvalidVersion)
      else if length r < 2 then (db, Some Panic)
      else if r ! 1 = FormatInt (wrap64 (ver db (r ! 0) + 1)) then append db r
      else (db, Some ErrInvalidVersion))"

definition Delete :: "csvDB \<Rightarrow> string \<Rightarrow> csvDB \<times> error option" where
  "Delete db ident =
     (if ver db ident < 1 then (db, Some ErrNotFound) else append db [ident, ''0''])"

text \<open>
  \<^verbatim>\<open>Get\<close> returns the record (\<open>[]\<close> for \<^verbatim>\<open>nil\<close>) and the error.
  \<open>read_at\<close> is the seek to an offset followed by one \<^verbatim>\<open>Read\<close> of a fresh reader.
\<close>

definition read_at :: "fline list \<Rightarrow> nat \<Rightarrow> error + Record" where
  "read_at content offset =
     (if offset \<ge> length content then Inl ErrEOF
      else (case content ! offset of Malformed \<Rightarrow> Inl ErrCSV | Row rec \<Rightarrow> Inr rec))"

definition Get :: "csvDB \<Rightarrow> string \<Rightarrow> Record \<times> error option" where
  "Get db ident =
     (if ver db ident < 1 then ([], Some ErrNotFound)
      else (case index db ident of
              None \<Rightarrow> ([], None)
            | Some offset \<Rightarrow>
                (case read_at (rows db) offset of
                   Inl e \<Rightarrow> ([], Some e)
                 | Inr rec \<Rightarrow>
                     (if length rec > 0 \<and> rec ! 0 \<noteq> ident then ([], Some ErrCorruptedIndex)
                      else (rec, None)))))"

text \<open>
  \<^verbatim>\<open>Iter\<close>: the pairs handed to \<^verbatim>\<open>yield\<close>, in order, when the consumer never
  stops the iteration (a consumer that stops sees a prefix of this list).
\<close>

fun Iter_scan :: "csvDB \<Rightarrow> fline list \<Rightarrow> (Record \<times> error option) list" where
  "Iter_scan db [] = []"
| "Iter_scan db (Malformed # rest) = [([], Some ErrCSV)]"
| "Iter_scan db (Row rec # rest) =
     (if length rec < 2 then Iter_scan db rest
      else if rec ! 1 = ''0'' then Iter_scan db rest
      else if rec ! 1 = FormatInt (ver db (rec ! 0)) then (rec, None) # Iter_scan db rest
      else Iter_scan db rest)"

definition Iter :: "csvDB \<Rightarrow> (Record \<times> error option) list" where
  "Iter db = Iter_scan db (rows db)"

section \<open>Schema: validation and the two projections\<close>

text \<open>
  A \<^verbatim>\<open>float64\<close>. Comparison of doubles is exact, so the order of the finite doubles is
  the order of the real numbers they denote (both zeros denote 0); the infinities and
  NaN compare as IEEE 754 says: every comparison with NaN is false.
\<close>

datatype float64 = Finite real | PosInf | NegInf | NaN

fun f_le :: "float64 \<Rightarrow> float64 \<Rightarrow> bool" where
  "f_le NaN b = False"
| "f_le a NaN = False"
| "f_le NegInf b = True"
| "f_le a PosInf = True"
| "f_le (Finite x) (Finite y) = (x \<le> y)"
| "f_le PosInf b = False"
| "f_le (Finite x) NegInf = False"

fun f_lt :: "float64 \<Rightarrow> float64 \<Rightarrow> bool" where
  "f_lt NaN b = False"
| "f_lt a NaN = False"
| "f_lt (Finite x) (Finite y) = (x < y)"
| "f_lt NegInf NegInf = False"
| "f_lt NegInf b = True"
| "f_lt PosInf b = False"
| "f_lt (Finite x) PosInf = True"
| "f_lt (Finite x) NegInf = False"

fun f_eq :: "float64 \<Rightarrow> float64 \<Rightarrow> bool" where
  "f_eq NaN b = False"
| "f_eq a NaN = False"
| "f_eq a b = (a = b)"

text \<open>
  A value of type \<^verbatim>\<open>any\<close>: \<^verbatim>\<open>nil\<close>, a \<^verbatim>\<open>float64\<close>, a \<^verbatim>\<open>string\<close>, a
  \<^verbatim>\<open>[]string\<close>, or a value of any other dynamic type. A \<^verbatim>\<open>Resource\<close> is a
  \<^verbatim>\<open>map[string]any\<close>: a key can be present with the value \<^verbatim>\<open>nil\<close>, which differs
  from an absent key only under the two-valued read \<^verbatim>\<open>_, ok := r[k]\<close>.
\<close>

datatype val = VNil | VNum float64 | VText string | VList "string list" | VOther

type_synonym Resource = "string \<rightharpoonup> val"

definition lookup :: "Resource \<Rightarrow> string \<Rightarrow> val" where
  "lookup res k = (case res k of None \<Rightarrow> VNil | Some v \<Rightarrow> v)"

type_synonym FieldType = string

definition Number :: FieldType where "Number = ''number''"

definition Text :: FieldType where "Text = ''text''"

definition List :: FieldType where "List = ''list''"

record FieldSchema =
  Resource :: string
  Field :: string
  Type :: FieldType
  FMin :: float64     \<comment> \<open>\<^verbatim>\<open>Min\<close>\<close>
  FMax :: float64     \<comment> \<open>\<^verbatim>\<open>Max\<close>\<close>
  Regex :: string

type_synonym Schema = "FieldSchema list"

text \<open>
  The functions of Go's library that the schema code calls and that are not modelled
  here, taken as parameters: \<open>MatchString re s\<close> is
  \<^verbatim>\<open>regexp.MustCompile(re).MatchString(s)\<close> (\<open>None\<close> when \<open>re\<close> does not compile and
  \<^verbatim>\<open>MustCompile\<close> panics), \<open>Sprintf_g\<close> is \<^verbatim>\<open>fmt.Sprintf("%g", x)\<close>, \<open>ParseFloat\<close> is
  \<^verbatim>\<open>strconv.ParseFloat(s, 64)\<close> (\<open>None\<close> for an error) and \<open>float_add\<close> is the addition
  of doubles.
\<close>

record golib =
  MatchString :: "string \<Rightarrow> string \<Rightarrow> bool option"
  Sprintf_g :: "float64 \<Rightarrow> string"
  ParseFloat :: "string \<Rightarrow> float64 option"
  float_add :: "float64 \<Rightarrow> float64 \<Rightarrow> float64"

definition Validate :: "golib \<Rightarrow> FieldSchema \<Rightarrow> val \<Rightarrow> error + bool" where
  "Validate lib field v =
     (if v = VNil then Inr False
      else if Type field = Number then
        (case v of
           VNum n \<Rightarrow>
             Inr ((f_eq (FMin field) (Finite 0) \<and> f_eq (FMax field) (Finite 0)) \<or>
                  (f_le (FMin field) n \<and> (f_lt (FMax field) (FMin field) \<or> f_le n (FMax field))))
         | _ \<Rightarrow> Inr False)
      else if Type field = Text then
        (case v of
           VText s \<Rightarrow>
             if Regex field = [] then Inr True
             else (case MatchString lib (Regex field) s of None \<Rightarrow> Inl Panic | Some b \<Rightarrow> Inr b)
         | _ \<Rightarrow> Inr False)
      else if Type field = List then
        (case v of VList xs \<Rightarrow> Inr True | _ \<Rightarrow> Inr False)
      else Inr False)"

text \<open>\<^verbatim>\<open>strings.Join(elems, sep)\<close>, and \<^verbatim>\<open>strings.Split(s, sep)\<close> for a separator of one byte.\<close>

fun Join :: "string list \<Rightarrow> string \<Rightarrow> string" where
  "Join [] sep = []"
| "Join [x] sep = x"
| "Join (x # y # ys) sep = x @ sep @ Join (y # ys) sep"

fun split_from :: "string \<Rightarrow> string \<Rightarrow> char \<Rightarrow> string list" where
  "split_from cur [] c = [rev cur]"
| "split_from cur (x # xs) c =
     (if x = c then rev cur # split_from [] xs c else split_from (x # cur) xs c)"

definition Split :: "string \<Rightarrow> char \<Rightarrow> string list" where
  "Split s c = split_from [] s c"

text \<open>
  \<^verbatim>\<open>Schema.Record\<close>. \<open>zero_value\<close> is the map literal of zero values read at the field
  type (\<^verbatim>\<open>nil\<close> for an unknown type). \<open>Record_field\<close> is the body of the loop for one
  field: the error it returns, or the cells it appends to \<^verbatim>\<open>rec\<close>. After
  \<^verbatim>\<open>Validate\<close> has accepted \<open>v\<close> the type of \<open>v\<close> is the one its field type names, so
  the other branches of the inner case distinctions are never taken.
\<close>

definition zero_value :: "FieldType \<Rightarrow> val" where
  "zero_value t =
     (if t = Number then VNum (Finite 0) else if t = Text then VText []
      else if t = List then VList [] else VNil)"

definition Record_field :: "golib \<Rightarrow> FieldSchema \<Rightarrow> Resource \<Rightarrow> error + Record" where
  "Record_field lib field res =
     (let v0 = lookup res (Field field);
          v = (if v0 = VNil then zero_value (Type field) else v0)
      in case Validate lib field v of
           Inl e \<Rightarrow> Inl e
         | Inr ok \<Rightarrow>
             if \<not> ok then Inl (ErrInvalidField (Field field))
             else if Type field = Number then
               (case v of VNum n \<Rightarrow> Inr [Sprintf_g lib n] | _ \<Rightarrow> Inl Panic)
             else if Type field = Text then
               (case v of VText t \<Rightarrow> Inr [t] | _ \<Rightarrow> Inl Panic)
             else if Type field = List then
               (case v of VList xs \<Rightarrow> Inr [Join xs '',''] | _ \<Rightarrow> Inl Panic)
             else Inr [])"

fun Schema_Record :: "golib \<Rightarrow> Schema \<Rightarrow> Resource \<Rightarrow> error + Record" where
  "Schema_Record lib [] res = Inr []"
| "Schema_Record lib (field # s) res =
     (case Record_field lib field res of
        Inl e \<Rightarrow> Inl e
      | Inr cells \<Rightarrow>
          (case Schema_Record lib s res of Inl e \<Rightarrow> Inl e | Inr rest \<Rightarrow> Inr (cells @ rest)))"

text \<open>
  \<^verbatim>\<open>Schema.Resource\<close>: the loop over the schema, the cells of \<^verbatim>\<open>rec\<close> taken in step
  (the list argument is \<^verbatim>\<open>rec[i:]\<close>, empty when \<^verbatim>\<open>i >= len(rec)\<close>), \<open>res\<close> the map
  built so far. The error of \<^verbatim>\<open>ParseFloat\<close> is returned as it is; the model names it
  \<open>ErrNumSyntax\<close> whatever its kind.
\<close>

fun Resource_fields :: "golib \<Rightarrow> Schema \<Rightarrow> Record \<Rightarrow> Resource \<Rightarrow> error + Resource" where
  "Resource_fields lib [] rec res = Inr res"
| "Resource_fields lib (field # s) [] res = Inl ErrShortRecord"
| "Resource_fields lib (field # s) (c # cs) res =
     (if Type field = Number then
        (case ParseFloat lib c of
           None \<Rightarrow> Inl ErrNumSyntax
         | Some n \<Rightarrow> Resource_fields lib s cs (res(Field field \<mapsto> VNum n)))
      else if Type field = Text then Resource_fields lib s cs (res(Field field \<mapsto> VText c))
      else if Type field = List then
        Resource_fields lib s cs
          (res(Field field \<mapsto> (if c \<noteq> [] then VList (Split c CHR '','') else VList [])))
      else Inl ErrUnknownFieldType)"

definition Schema_Resource :: "golib \<Rightarrow> Schema \<Rightarrow> Record \<Rightarrow> error + Resource" where
  "Schema_Resource lib s rec = Resource_fields lib s rec Map.empty"

section \<open>The collection store\<close>

record Store =
  Dir :: string
  Schemas :: "string \<rightharpoonup> Schema"
  Resources :: "string \<rightharpoonup> csvDB"

text \<open>\<^verbatim>\<open>s.Schemas[resource]\<close>: the nil slice when the key is missing.\<close>

definition schema_of :: "Store \<Rightarrow> string \<Rightarrow> Schema" where
  "schema_of s resource = (case Schemas s resource of None \<Rightarrow> [] | Some sc \<Rightarrow> sc)"

text \<open>\<^verbatim>\<open>Store.Get\<close>: \<open>Inr None\<close> is the result \<^verbatim>\<open>nil, nil\<close>.\<close>

definition Store_Get :: "golib \<Rightarrow> Store \<Rightarrow> string \<Rightarrow> string \<Rightarrow> error + Resource option" where
  "Store_Get lib s resource ident =
     (case Resources s resource of
        None \<Rightarrow> Inl ErrResourceNotFound
      | Some db \<Rightarrow>
          (case Get db ident of
             (rec, Some e) \<Rightarrow> Inl e
           | (rec, None) \<Rightarrow>
               if length rec < 2 then Inr None
               else (case Schema_Resource lib (schema_of s resource) rec of
                       Inl e \<Rightarrow> Inl e
                     | Inr res \<Rightarrow> Inr (Some res))))"

text \<open>Reading a possibly nil map: \<^verbatim>\<open>orig[k]\<close>.\<close>

definition lookup_nil :: "Resource option \<Rightarrow> string \<Rightarrow> val" where
  "lookup_nil m k = (case m of None \<Rightarrow> VNil | Some res \<Rightarrow> lookup res k)"




text \<open>
  \<^verbatim>\<open>Store.List\<close> with \<^verbatim>\<open>sortBy == ""\<close>, the one call \<^verbatim>\<open>Authorize\<close> makes: the sort
  is skipped. The result is the list and the error.
\<close>

fun List_rows ::
  "golib \<Rightarrow> Schema \<Rightarrow> (Record \<times> error option) list \<Rightarrow> Resource list \<Rightarrow>
     Resource list \<times> error option" where
  "List_rows lib sc [] res = (res, None)"
| "List_rows lib sc ((rec, Some e) # rest) res = ([], Some e)"
| "List_rows lib sc ((rec, None) # rest) res =
     (if length rec < 2 then List_rows lib sc rest res
      else (case Schema_Resource lib sc rec of
              Inl e \<Rightarrow> (res, Some e)
            | Inr r \<Rightarrow> List_rows lib sc rest (res @ [r])))"

definition Store_List :: "golib \<Rightarrow> Store \<Rightarrow> string \<Rightarrow> Resource list \<times> error option" where
  "Store_List lib s resource =
     (case Resources s resource of
        None \<Rightarrow> ([], Some ErrResourceNotFound)
      | Some db \<Rightarrow> List_rows lib (schema_of s resource) (Iter db) [])"

section \<open>Authorization\<close>

text \<open>
  \<^verbatim>\<open>Store.Authorize\<close>. A rule \<open>p\<close> is a resource of \<^verbatim>\<open>_permissions\<close>. The loop skips a
  rule unless \<open>rule_matches\<close> holds (the negation of the condition of its first
  \<^verbatim>\<open>continue\<close>); \<open>rule_public\<close> is the test of the public rule; \<open>owns\<close> is the pair of
  tests on the field of the requested resource that names its owner or owners. The result
  is the error, \<open>None\<close> for \<^verbatim>\<open>nil\<close> (access granted). A comparison of an \<^verbatim>\<open>any\<close> with
  a string holds when the value is that string; a failed type assertion panics.
\<close>

definition rule_matches :: "Resource \<Rightarrow> string \<Rightarrow> string \<Rightarrow> bool" where
  "rule_matches p resource action =
     (lookup p ''resource'' = VText resource \<and>
      (lookup p ''action'' = VText ''*'' \<or> lookup p ''action'' = VText action))"

definition rule_public :: "Resource \<Rightarrow> bool" where
  "rule_public p = (lookup p ''field'' = VText [] \<and> lookup p ''role'' = VText [])"

definition owns :: "Resource option \<Rightarrow> string \<Rightarrow> string \<Rightarrow> bool" where
  "owns res fld username =
     ((case res of None \<Rightarrow> False | Some m \<Rightarrow> m fld = Some (VText username)) \<or>
      (case lookup_nil res fld of VList users \<Rightarrow> username \<in> set users | _ \<Rightarrow> False))"

fun Authorize_rules ::
  "golib \<Rightarrow> Store \<Rightarrow> Resource list \<Rightarrow> string \<Rightarrow> string \<Rightarrow> string \<Rightarrow> Resource option \<Rightarrow>
     error option" where
  "Authorize_rules lib s [] resource ident action user = Some ErrUnauthorized"
| "Authorize_rules lib s (p # ps) resource ident action user =
     (if \<not> rule_matches p resource action then Authorize_rules lib s ps resource ident action user
      else if rule_public p then None
      else
        (case user of
           None \<Rightarrow> Some ErrUnauthenticated
         | Some u \<Rightarrow>
             if lookup p ''role'' = VText ''*'' then None
             else
               (case lookup u ''roles'' of
                  VList roles \<Rightarrow>
                    (case lookup p ''role'' of
                       VText role \<Rightarrow>
                         if role \<in> set roles then None
                         else if ident \<noteq> [] then
                           (case Store_Get lib s resource ident of
                              Inl e \<Rightarrow> Some e
                            | Inr res \<Rightarrow>
                                (case lookup u ''_id'' of
                                   VText username \<Rightarrow>
                                     (case lookup p ''field'' of
                                        VText fld \<Rightarrow>
                                          if owns res fld username then None
                                          else Authorize_rules lib s ps resource ident action user
                                      | _ \<Rightarrow> Some Panic)
                                 | _ \<Rightarrow> Some Panic))
                         else Authorize_rules lib s ps resource ident action user
                     | _ \<Rightarrow> Some Panic)
                | _ \<Rightarrow> Some Panic)))"

definition Store_Authorize ::
  "golib \<Rightarrow> Store \<Rightarrow> string \<Rightarrow> string \<Rightarrow> string \<Rightarrow> Resource option \<Rightarrow> error option" where
  "Store_Authorize lib s resource ident action user =
     (case Store_List lib s ''_permissions'' of
        (permissions, Some e) \<Rightarrow> Some (ErrPermissions e)
      | (permissions, None) \<Rightarrow> Authorize_rules lib s permissions resource ident action user)"

section \<open>The session signer\<close>

text \<open>
  \<^verbatim>\<open>base32.StdEncoding.EncodeToString\<close> (RFC 4648): the bits of the bytes, most
  significant first, are cut into groups of five, the last group filled up with zeros;
  each group indexes the alphabet; the output is padded with \<open>=\<close> to a multiple of
  eight characters. A byte is a \<open>char\<close>.
\<close>

definition base32_alphabet :: string where
  "base32_alphabet = ''ABCDEFGHIJKLMNOPQRSTUVWXYZ234567''"

definition byte_bits :: "char \<Rightarrow> bool list" where
  "byte_bits c = map (\<lambda>i. bit (of_char c :: nat) i) [7, 6, 5, 4, 3, 2, 1, 0]"

definition bits_value :: "bool list \<Rightarrow> nat" where
  "bits_value bs = foldl (\<lambda>a b. 2 * a + (if b then 1 else 0)) 0 bs"

function groups5 :: "bool list \<Rightarrow> bool list list" where
  "groups5 bs = (if bs = [] then [] else take 5 (bs @ replicate 4 False) # groups5 (drop 5 bs))"
  by pat_completeness auto
termination
  by (relation "measure length") auto

declare groups5.simps [simp del]

definition base32_encode :: "string \<Rightarrow> string" where
  "base32_encode bytes =
     (let cs = map (\<lambda>g. base32_alphabet ! bits_value g) (groups5 (concat (map byte_bits bytes)))
      in cs @ replicate ((8 - length cs mod 8) mod 8) (CHR ''=''))"

text \<open>
  \<^verbatim>\<open>SignSession\<close> and \<^verbatim>\<open>VerifySession\<close>. The parameters are what the code reads from
  its environment: \<open>sha256\<close> is \<^verbatim>\<open>sha256.Sum256\<close> (a library function, its 32 bytes as
  a string, so that the slice \<^verbatim>\<open>[:16]\<close> of its encoding is in range), \<open>SessionKey\<close> the
  process-wide key, \<open>now\<close> the value of \<^verbatim>\<open>time.Now().Unix()\<close>, an \<^verbatim>\<open>int64\<close>.
  \<open>session_sig\<close> is the signature both functions compute.
\<close>

definition session_sig :: "(string \<Rightarrow> string) \<Rightarrow> string \<Rightarrow> string \<Rightarrow> string" where
  "session_sig sha256 SessionKey data = take 16 (base32_encode (sha256 (SessionKey @ data)))"

definition SignSession :: "(string \<Rightarrow> string) \<Rightarrow> string \<Rightarrow> int \<Rightarrow> string \<Rightarrow> string" where
  "SignSession sha256 SessionKey now username =
     (let data = username @ '':'' @ FormatInt now;
          sig = session_sig sha256 SessionKey data
      in data @ ''.'' @ sig)"

definition VerifySession ::
  "(string \<Rightarrow> string) \<Rightarrow> string \<Rightarrow> int \<Rightarrow> string \<Rightarrow> string \<times> bool" where
  "VerifySession sha256 SessionKey now session =
     (let parts = Split session (CHR ''.'') in
      if length parts \<noteq> 2 then ([], False)
      else
        let data = parts ! 0; sig = parts ! 1;
            expectedSig = session_sig sha256 SessionKey data
        in if sig \<noteq> expectedSig then ([], False)
           else
             let parts = Split data (CHR '':'') in
             if length parts = 2 then
               (case ParseInt (parts ! 1) of
                  (ts, None) \<Rightarrow>
                    if wrap64 (now - ts) < 86400 then (parts ! 0, True) else ([], False)
                | (ts, Some e) \<Rightarrow> ([], False))
             else ([], False))"

section \<open>Sequences of operations on one log\<close>

text \<open>A sequence of operations on one log, run until the first error.\<close>

datatype op = OpCreate Record | OpUpdate Record | OpDelete string

fun apply_op :: "csvDB \<Rightarrow> op \<Rightarrow> csvDB \<times> error option" where
  "apply_op db (OpCreate r) = Create db r"
| "apply_op db (OpUpdate r) = Update db r"
| "apply_op db (OpDelete ident) = Delete db ident"

fun run_ops :: "csvDB \<Rightarrow> op list \<Rightarrow> csvDB option" where
  "run_ops db [] = Some db"
| "run_ops db (x # xs) =
     (case apply_op db x of (db', None) \<Rightarrow> run_ops db' xs | (db', Some e) \<Rightarrow> None)"

fun op_ident :: "op \<Rightarrow> string" where
  "op_ident (OpCreate r) = (case r of [] \<Rightarrow> [] | x # _ \<Rightarrow> x)"
| "op_ident (OpUpdate r) = (case r of [] \<Rightarrow> [] | x # _ \<Rightarrow> x)"
| "op_ident (OpDelete ident) = ident"

section \<open>Concrete instances for the worked examples\<close>

text \<open>The log of a new, empty file, and small logs for the examples.\<close>

definition emptyDB :: csvDB where
  "emptyDB = \<lparr>rows = [], index = Map.empty, version = Map.empty\<rparr>"

definition db_example :: csvDB where
  "db_example =
     \<lparr>rows = [Row [''a''], Row [''b'', ''1'', ''x''], Row [''c'', ''0'']],
      index = [''a'' \<mapsto> 0, ''b'' \<mapsto> 1, ''c'' \<mapsto> 2],
      version = [''b'' \<mapsto> 1, ''c'' \<mapsto> 0]\<rparr>"

definition cr_lf_ident :: string where
  "cr_lf_ident = [CHR ''a'', CHR 0x0D, CHR 0x0A, CHR ''b'']"



definition db_cr_lf :: csvDB where
  "db_cr_lf =
     \<lparr>rows = [Row [[CHR ''a'', CHR 0x0A, CHR ''b''], ''1'']],
      index = [cr_lf_ident \<mapsto> 0], version = [cr_lf_ident \<mapsto> 1]\<rparr>"

definition db_cr_lf_reopened :: csvDB where
  "db_cr_lf_reopened =
     \<lparr>rows = [Row [[CHR ''a'', CHR 0x0A, CHR ''b''], ''1'']],
      index = [[CHR ''a'', CHR 0x0A, CHR ''b''] \<mapsto> 0],
      version = [[CHR ''a'', CHR 0x0A, CHR ''b''] \<mapsto> 1]\<rparr>"

definition ops_example :: "op list" where
  "ops_example =
     [OpCreate [''a'', ''1'', ''x''], OpUpdate [''a'', ''2'', ''y''],
      OpCreate [''b'', ''1'', ''z''], OpDelete ''a'']"

definition field_example :: "real \<Rightarrow> real \<Rightarrow> FieldSchema" where
  "field_example lo hi =
     \<lparr>Resource = ''books'', Field = ''year'', Type = Number,
      FMin = Finite lo, FMax = Finite hi, Regex = []\<rparr>"

text \<open>
  An instance of the library parameters for the examples. It agrees with Go on what
  the examples use: \<^verbatim>\<open>%g\<close> of an integral double below \<open>10\<^sup>6\<close> in magnitude is its
  decimal rendering, and from \<open>10\<^sup>6\<close> on (below \<open>2\<^sup>5\<^sup>3\<close>) it is the exponent form of
  its digits, as in \<^verbatim>\<open>1e+06\<close> and \<^verbatim>\<open>1.234567e+06\<close>; \<^verbatim>\<open>ParseFloat\<close> of a decimal
  integer is that integer; the sum of two small integral doubles is exact; and the
  patterns \<^verbatim>\<open>^.*$\<close> and \<^verbatim>\<open>^.+$\<close> match every string and every non-empty string. The
  theorems hold for every instance.
\<close>

definition exponent_form :: "int \<Rightarrow> string" where
  "exponent_form n =
     (let ds = FormatInt \<bar>n\<bar>;
          m = rev (dropWhile (\<lambda>c. c = CHR ''0'') (rev ds));
          e = int (length ds) - 1
      in (if n < 0 then ''-'' else []) @ [hd m] @ (if tl m = [] then [] else CHR ''.'' # tl m) @
         ''e+'' @ (if e < 10 then ''0'' else []) @ FormatInt e)"

definition lib_example :: golib where
  "lib_example =
     \<lparr>MatchString = (\<lambda>re s. if re = ''^.*$'' then Some True
                            else if re = ''^.+$'' then Some (s \<noteq> []) else None),
      Sprintf_g = (\<lambda>x. case x of
                           Finite r \<Rightarrow> if \<bar>r\<bar> < 1000000 then FormatInt \<lfloor>r\<rfloor>
                                       else exponent_form \<lfloor>r\<rfloor>
                         | PosInf \<Rightarrow> ''+Inf'' | NegInf \<Rightarrow> ''-Inf'' | NaN \<Rightarrow> ''NaN''),
      ParseFloat = (\<lambda>s. case ParseInt s of (n, None) \<Rightarrow> Some (Finite (of_int n)) | (n, Some e) \<Rightarrow> None),
      float_add = (\<lambda>a b. case (a, b) of (Finite x, Finite y) \<Rightarrow> Finite (x + y) | _ \<Rightarrow> NaN)\<rparr>"

definition tags_field :: FieldSchema where
  "tags_field =
     \<lparr>Resource = ''books'', Field = ''tags'', Type = List,
      FMin = Finite 0, FMax = Finite 0, Regex = []\<rparr>"

definition books_schema :: Schema where
  "books_schema =
     [\<lparr>Resource = ''books'', Field = ''_id'', Type = Text,
       FMin = Finite 0, FMax = Finite 0, Regex = ''^.+$''\<rparr>,
      \<lparr>Resource = ''books'', Field = ''_v'', Type = Number,
       FMin = Finite 1, FMax = Finite 0, Regex = []\<rparr>,
      \<lparr>Resource = ''books'', Field = ''title'', Type = Text,
       FMin = Finite 0, FMax = Finite 0, Regex = []\<rparr>,
      \<lparr>Resource = ''books'', Field = ''tags'', Type = List,
       FMin = Finite 0, FMax = Finite 0, Regex = []\<rparr>]"

definition book_example :: Resource where
  "book_example =
     [''_id'' \<mapsto> VText ''b1'', ''_v'' \<mapsto> VNum (Finite 1), ''title'' \<mapsto> VText ''t'',
      ''tags'' \<mapsto> VList [''x'', ''y'']]"

definition books_db :: csvDB where
  "books_db =
     \<lparr>rows = [Row [''b1'', ''1'', ''t'', ''x,y'']],
      index = [''b1'' \<mapsto> 0], version = [''b1'' \<mapsto> 1]\<rparr>"





text \<open>A store with two permission rules on \<^verbatim>\<open>books\<close>.\<close>

definition permissions_schema :: Schema where
  "permissions_schema =
     [\<lparr>Resource = ''_permissions'', Field = ''_id'', Type = Text,
       FMin = Finite 0, FMax = Finite 0, Regex = ''^.+$''\<rparr>,
      \<lparr>Resource = ''_permissions'', Field = ''_v'', Type = Number,
       FMin = Finite 1, FMax = Finite 0, Regex = []\<rparr>,
      \<lparr>Resource = ''_permissions'', Field = ''resource'', Type = Text,
       FMin = Finite 0, FMax = Finite 0, Regex = ''^.+$''\<rparr>,
      \<lparr>Resource = ''_permissions'', Field = ''action'', Type = Text,
       FMin = Finite 0, FMax = Finite 0, Regex = ''^.+$''\<rparr>,
      \<lparr>Resource = ''_permissions'', Field = ''field'', Type = Text,
       FMin = Finite 0, FMax = Finite 0, Regex = ''^.*$''\<rparr>,
      \<lparr>Resource = ''_permissions'', Field = ''role'', Type = Text,
       FMin = Finite 0, FMax = Finite 0, Regex = ''^.*$''\<rparr>]"

definition rule_admin_read :: Resource where
  "rule_admin_read =
     [''_id'' \<mapsto> VText ''p1'', ''_v'' \<mapsto> VNum (Finite 1), ''resource'' \<mapsto> VText ''books'',
      ''action'' \<mapsto> VText ''read'', ''field'' \<mapsto> VText [], ''role'' \<mapsto> VText ''admin'']"

definition rule_public_read :: Resource where
  "rule_public_read =
     [''_id'' \<mapsto> VText ''p2'', ''_v'' \<mapsto> VNum (Finite 1), ''resource'' \<mapsto> VText ''books'',
      ''action'' \<mapsto> VText ''read'', ''field'' \<mapsto> VText [], ''role'' \<mapsto> VText []]"

definition permissions_db :: csvDB where
  "permissions_db =
     \<lparr>rows = [Row [''p1'', ''1'', ''books'', ''read'', [], ''admin''],
              Row [''p2'', ''1'', ''books'', ''read'', [], []]],
      index = [''p1'' \<mapsto> 0, ''p2'' \<mapsto> 1], version = [''p1'' \<mapsto> 1, ''p2'' \<mapsto> 1]\<rparr>"

definition store_with_rules :: Store where
  "store_with_rules =
     \<lparr>Dir = ''data'',
      Schemas = [''_permissions'' \<mapsto> permissions_schema, ''books'' \<mapsto> books_schema],
      Resources = [''_permissions'' \<mapsto> permissions_db, ''books'' \<mapsto> books_db]\<rparr>"

text \<open>A stand-in for the hash function in the examples; the theorems hold for every function.\<close>

definition sha_example :: "string \<Rightarrow> string" where
  "sha_example s = replicate 32 (CHR 0x00)"

section \<open>Facts about the integer codec\<close>

lemma digit_cases:
  "d < 10 \<Longrightarrow> d = 0 \<or> d = 1 \<or> d = 2 \<or> d = 3 \<or> d = 4 \<or> d = 5 \<or> d = 6 \<or> d = 7 \<or> d = 8 \<or> d = (9::nat)"
  by arith

lemma digit_val_char: "d < 10 \<Longrightarrow> digit_val (digit_char d) = Some d"
proof -
  assume "d < 10"
  from digit_cases [OF this] show ?thesis
    by (elim disjE) (simp_all add: digit_val_def digit_char_def)
qed

lemma digit_char_in: "d < 10 \<Longrightarrow> digit_char d \<in> set ''0123456789''"
  unfolding digit_char_def by (rule nth_mem) simp

lemma fmt_nat_digits: "set (fmt_nat n) \<subseteq> set ''0123456789''"
proof (induction n rule: fmt_nat.induct)
  case (1 n)
  show ?case
  proof (cases "n < 10")
    case True
    then show ?thesis using digit_char_in [of n] by (subst fmt_nat.simps) simp
  next
    case False
    have "digit_char (n mod 10) \<in> set ''0123456789''" by (rule digit_char_in) simp
    with False 1 show ?thesis by (subst fmt_nat.simps) simp
  qed
qed

lemma fmt_nat_nonempty: "fmt_nat n \<noteq> []"
  by (subst fmt_nat.simps) simp

lemma FormatInt_chars: "set (FormatInt i) \<subseteq> set ''-0123456789''"
proof -
  have e: "set ''-0123456789'' = insert (CHR ''-'') (set ''0123456789'')" by simp
  show ?thesis
    unfolding e FormatInt_def
    using fmt_nat_digits [of "nat i"] fmt_nat_digits [of "nat (- i)"]
    by (cases "i < 0") (simp_all add: subset_insertI2)
qed

lemma parse_uint_append:
  "parse_uint acc xs = Inr a \<Longrightarrow> parse_uint acc (xs @ ys) = parse_uint a ys"
  by (induction xs arbitrary: acc) (auto split: option.splits if_splits)

lemma parse_uint_fmt: "n < 2 ^ 64 \<Longrightarrow> parse_uint 0 (fmt_nat n) = Inr n"
proof (induction n rule: fmt_nat.induct)
  case (1 n)
  show ?case
  proof (cases "n < 10")
    case True
    then show ?thesis using 1(2) by (subst fmt_nat.simps) (simp add: digit_val_char)
  next
    case False
    then have "n div 10 < 2 ^ 64" using 1(2) by simp
    with 1(1) False have ih: "parse_uint 0 (fmt_nat (n div 10)) = Inr (n div 10)" by simp
    have d: "digit_val (digit_char (n mod 10)) = Some (n mod 10)" by (simp add: digit_val_char)
    show ?thesis using False d 1(2)
      by (subst fmt_nat.simps) (simp add: parse_uint_append [OF ih])
  qed
qed

lemma hd_fmt_nat: "hd (fmt_nat n) \<noteq> CHR ''-'' \<and> hd (fmt_nat n) \<noteq> CHR ''+''"
proof -
  have "hd (fmt_nat n) \<in> set (fmt_nat n)" by (simp add: fmt_nat_nonempty)
  then have "hd (fmt_nat n) \<in> set ''0123456789''" using fmt_nat_digits by blast
  then show ?thesis by fastforce
qed

lemma ParseInt_FormatInt: "int64 n \<Longrightarrow> ParseInt (FormatInt n) = (n, None)"
proof (cases "n < 0")
  case True
  assume r: "int64 n"
  then have b: "nat (- n) < 2 ^ 64" "nat (- n) \<le> 2 ^ 63" by (auto simp: int64_def)
  show ?thesis using True b parse_uint_fmt [OF b(1)]
    by (simp add: ParseInt_def FormatInt_def ParseUint_def fmt_nat_nonempty)
next
  case False
  assume r: "int64 n"
  then have b: "nat n < 2 ^ 64" "nat n < 2 ^ 63" using False by (auto simp: int64_def)
  show ?thesis using False b parse_uint_fmt [OF b(1)] hd_fmt_nat [of "nat n"]
    by (simp add: ParseInt_def FormatInt_def ParseUint_def fmt_nat_nonempty)
qed

lemma int64_wrap64: "int64 (wrap64 n)"
  by (simp add: int64_def wrap64_def)

lemma crlf_no_cr: "CHR 0x0D \<notin> set s \<Longrightarrow> crlf_to_lf s = s"
  by (induction s rule: crlf_to_lf.induct) auto

lemma crlf_FormatInt: "crlf_to_lf (FormatInt n) = FormatInt n"
proof (rule crlf_no_cr)
  have "CHR 0x0D \<notin> set ''-0123456789''" by simp
  then show "CHR 0x0D \<notin> set (FormatInt n)" using FormatInt_chars [of n] by blast
qed

lemma FormatInt_0: "FormatInt 0 = ''0''"
  by (simp add: FormatInt_def fmt_nat.simps digit_char_def)

lemma FormatInt_1: "FormatInt 1 = ''1''"
  by (simp add: FormatInt_def fmt_nat.simps digit_char_def)

lemma ParseInt_0: "ParseInt ''0'' = (0, None)"
  by (simp add: ParseInt_def ParseUint_def digit_val_def)

lemma ParseInt_1: "ParseInt ''1'' = (1, None)"
  by (simp add: ParseInt_def ParseUint_def digit_val_def)

section \<open>Facts about the row log\<close>

lemma Iter_scan_yield:
  "(rec, None) \<in> set (Iter_scan db ls) \<Longrightarrow>
     2 \<le> length rec \<and> rec ! 1 \<noteq> ''0'' \<and> rec ! 1 = FormatInt (ver db (rec ! 0))"
  by (induction db ls rule: Iter_scan.induct) (auto split: if_splits)

lemma Iter_scan_skip_short:
  "length r < 2 \<Longrightarrow> Iter_scan db (pre @ Row r # post) = Iter_scan db (pre @ post)"
  by (induction db pre rule: Iter_scan.induct) auto


lemma ver_rows_update [simp]: "ver (db\<lparr>rows := R\<rparr>) = ver db"
  by (rule ext) (simp add: ver_def)

lemma Iter_scan_rows_update [simp]: "Iter_scan (db\<lparr>rows := R\<rparr>) ls = Iter_scan db ls"
  by (induction db ls rule: Iter_scan.induct) auto

text \<open>
  Claim C10. Every record that \<^verbatim>\<open>Iter\<close> yields without an error has at least
  two fields, its version field is not \<open>''0''\<close>, and its version field is the decimal
  rendering of the current version that the index holds for its identifier. A row of
  the file with fewer than two fields is skipped silently: the yields are those of the
  file without that row, no error is reported for it.
\<close>

theorem Iter_yields_live_rows:
  "(\<forall>rec. (rec, None) \<in> set (Iter db) \<longrightarrow>
      2 \<le> length rec \<and> rec ! 1 \<noteq> ''0'' \<and> rec ! 1 = FormatInt (ver db (rec ! 0))) \<and>
   (\<forall>pre r post. rows db = pre @ Row r # post \<longrightarrow> length r < 2 \<longrightarrow>
      Iter db = Iter (db\<lparr>rows := pre @ post\<rparr>))"
proof (intro conjI allI impI)
  fix rec assume "(rec, None) \<in> set (Iter db)"
  then show "2 \<le> length rec" "rec ! 1 \<noteq> ''0''" "rec ! 1 = FormatInt (ver db (rec ! 0))"
    using Iter_scan_yield [of rec db "rows db"] by (auto simp: Iter_def)
next
  fix pre r post assume "rows db = pre @ Row r # post" "length r < 2"
  then show "Iter db = Iter (db\<lparr>rows := pre @ post\<rparr>)"
    using Iter_scan_skip_short [of r db pre post] by (simp add: Iter_def)
qed

lemma Iter_db_example: "Iter db_example = [([''b'', ''1'', ''x''], None)]"
  by (simp add: Iter_def db_example_def ver_def FormatInt_1 FormatInt_0)

theorem Iter_yields_live_rows_witness:
  "Iter db_example = [([''b'', ''1'', ''x''], None)] \<and>
   [''b'', ''1'', ''x''] ! 1 = FormatInt (ver db_example ([''b'', ''1'', ''x''] ! 0)) \<and>
   Iter db_example = Iter (db_example\<lparr>rows := [] @ [Row [''b'', ''1'', ''x''], Row [''c'', ''0'']]\<rparr>)"
proof -
  have m: "([''b'', ''1'', ''x''], None) \<in> set (Iter db_example)"
    by (simp add: Iter_db_example)
  have r: "rows db_example = [] @ Row [''a''] # [Row [''b'', ''1'', ''x''], Row [''c'', ''0'']]"
    by (simp add: db_example_def)
  have s: "length [''a''] < 2" by simp
  from Iter_yields_live_rows [of db_example] m r s show ?thesis
    using Iter_db_example by blast
qed

lemma csv_written_row: "2 \<le> length r \<Longrightarrow> csv_written r = [Row (map crlf_to_lf r)]"
  by (cases r) (auto simp: csv_written_def)

lemma append_row:
  "2 \<le> length r \<Longrightarrow>
   append db r =
     (db\<lparr>rows := rows db @ [Row (map crlf_to_lf r)],
         index := (index db)(r ! 0 \<mapsto> length (rows db)),
         version := (version db)(r ! 0 \<mapsto> fst (ParseInt (r ! 1)))\<rparr>,
      snd (ParseInt (r ! 1)))"
proof -
  assume l: "2 \<le> length r"
  then have n: "\<not> length r < 1" "\<not> length r < 2" by linarith+
  show ?thesis unfolding append_def Let_def csv_written_row [OF l] if_not_P [OF n(1)] if_not_P [OF n(2)]
    by simp
qed

text \<open>
  Claim C5. \<^verbatim>\<open>Create(r)\<close> succeeds, appending \<open>r\<close> and indexing it at version 1,
  exactly when \<open>r\<close> has at least two fields, field 0 is not empty, field 1 is
  \<open>''1''\<close> and the current version of \<open>r[0]\<close> is 0. The claim has every other call
  fail with "invalid record" and leave the state as it was. The code does so for every
  record of two or more fields and for the record of one empty field; on the empty
  record and on a record of one non-empty field it indexes \<^verbatim>\<open>r[0]\<close> or
  \<^verbatim>\<open>r[1]\<close> out of range and panics instead of returning the error (the state is
  still unchanged). The instance below evaluates \<^verbatim>\<open>Create\<close> on
  \<^verbatim>\<open>Record{"a"}\<close> and \<^verbatim>\<open>Record{}\<close>.
\<close>

theorem Create_outcome:
  "Create db r =
     (if 2 \<le> length r \<and> r ! 0 \<noteq> [] \<and> r ! 1 = ''1'' \<and> ver db (r ! 0) = 0
      then (db\<lparr>rows := rows db @ [Row (map crlf_to_lf r)],
               index := (index db)(r ! 0 \<mapsto> length (rows db)),
               version := (version db)(r ! 0 \<mapsto> 1)\<rparr>, None)
      else if r = [] \<or> (length r = 1 \<and> r ! 0 \<noteq> []) then (db, Some Panic)
      else (db, Some ErrInvalidRecord))"
proof (cases "2 \<le> length r")
  case True
  then show ?thesis by (auto simp: Create_def append_row ParseInt_1)
next
  case False
  then have "r = [] \<or> length r = 1" by (cases r) (auto simp: not_le)
  then show ?thesis using False by (auto simp: Create_def)
qed

theorem Create_short_record_panics:
  "Create emptyDB [''a''] = (emptyDB, Some Panic) \<and> Create emptyDB [] = (emptyDB, Some Panic)"
  using Create_outcome [of emptyDB "[''a'']"] Create_outcome [of emptyDB "[]"] by simp

text \<open>
  Claim C1. The claim lets \<^verbatim>\<open>Update(r)\<close> succeed if and only if the current version
  \<open>v\<close> of \<open>r[0]\<close> is at least 1 and field 1 is the decimal rendering of \<open>v + 1\<close>,
  and fail with "invalid record version" otherwise, state unchanged. The code tests the
  rendering only: a record of two or more fields is appended exactly when field 1 renders
  \<open>v + 1\<close> (in 64-bit arithmetic), whatever \<open>v\<close> is, so an identifier that was never
  created or was deleted (\<open>v = 0\<close>) is brought to life by an update at version
  \<open>''1''\<close>; a record of one field panics. The instance below is
  \<^verbatim>\<open>Update(Record{"a", "1", "x"})\<close> on a new, empty log, followed by the run
  Create, Delete, Update of one identifier, each at version \<open>''1''\<close>.
\<close>

theorem Update_outcome:
  "Update db r =
     (if 2 \<le> length r \<and> r ! 1 = FormatInt (wrap64 (ver db (r ! 0) + 1))
      then (db\<lparr>rows := rows db @ [Row (map crlf_to_lf r)],
               index := (index db)(r ! 0 \<mapsto> length (rows db)),
               version := (version db)(r ! 0 \<mapsto> wrap64 (ver db (r ! 0) + 1))\<rparr>, None)
      else if length r = 1 then (db, Some Panic)
      else (db, Some ErrInvalidVersion))"
proof (cases "2 \<le> length r")
  case True
  then show ?thesis
    by (auto simp: Update_def append_row ParseInt_FormatInt int64_wrap64)
next
  case False
  then have "r = [] \<or> length r = 1" by (cases r) (auto simp: not_le)
  then show ?thesis using False by (auto simp: Update_def)
qed

lemma wrap64_1: "wrap64 1 = 1" by (simp add: wrap64_def)

theorem Update_creates_absent_identifier:
  "ver emptyDB ''a'' = 0 \<and>
   Update emptyDB [''a'', ''1'', ''x''] =
     (\<lparr>rows = [Row [''a'', ''1'', ''x'']], index = [''a'' \<mapsto> 0], version = [''a'' \<mapsto> 1]\<rparr>, None) \<and>
   run_ops emptyDB
     [OpCreate [''a'', ''1'', ''foo''], OpDelete ''a'', OpUpdate [''a'', ''1'', ''qux'']] =
     Some \<lparr>rows = [Row [''a'', ''1'', ''foo''], Row [''a'', ''0''], Row [''a'', ''1'', ''qux'']],
           index = [''a'' \<mapsto> 2], version = [''a'' \<mapsto> 1]\<rparr>"
proof -
  have "run_ops emptyDB
     [OpCreate [''a'', ''1'', ''foo''], OpDelete ''a'', OpUpdate [''a'', ''1'', ''qux'']] =
     Some \<lparr>rows = [Row [''a'', ''1'', ''foo''], Row [''a'', ''0''], Row [''a'', ''1'', ''qux'']],
           index = [''a'' \<mapsto> 2], version = [''a'' \<mapsto> 1]\<rparr>"
    by (simp add: Create_def Update_def Delete_def append_row emptyDB_def ver_def
        ParseInt_1 ParseInt_0 FormatInt_1 wrap64_1 numeral_2_eq_2)
  then show ?thesis
    using Update_outcome [of emptyDB "[''a'', ''1'', ''x'']"]
    by (simp add: emptyDB_def ver_def wrap64_1 FormatInt_1)
qed

lemma len2D:
  assumes "2 \<le> length (r :: 'a list)"
  shows "r \<noteq> []" "0 < length r" "Suc 0 < length r" "\<not> length r < 2" "\<not> length r < 1"
  using assms by auto

lemma Delete_accept:
  "1 \<le> ver db ident \<Longrightarrow>
   Delete db ident =
     (db\<lparr>rows := rows db @ [Row [crlf_to_lf ident, ''0'']],
         index := (index db)(ident \<mapsto> length (rows db)),
         version := (version db)(ident \<mapsto> 0)\<rparr>, None)"
  by (simp add: Delete_def append_row ParseInt_0)




lemma ver_rows [simp]: "ver (db\<lparr>rows := R, index := I, version := V\<rparr>) i = (case V i of None \<Rightarrow> 0 | Some v \<Rightarrow> v)"
  by (simp add: ver_def)



lemma Get_normalises_cr_lf_field:
  "Get (fst (Create emptyDB [''a'', ''1'', [CHR ''x'', CHR 0x0D, CHR 0x0A, CHR ''y'']])) ''a''
     = ([''a'', ''1'', [CHR ''x'', CHR 0x0A, CHR ''y'']], None)"
  by (simp add: Create_def append_row emptyDB_def ver_def ParseInt_1 Get_def read_at_def)

lemma Delete_hides_identifier:
  assumes v: "1 \<le> ver db ident"
  shows "snd (Delete db ident) = None \<and>
         Get (fst (Delete db ident)) ident = ([], Some ErrNotFound) \<and>
         (\<forall>rec. (rec, None) \<in> set (Iter (fst (Delete db ident))) \<longrightarrow> rec ! 0 \<noteq> ident)"
proof -
  define db1 where "db1 = fst (Delete db ident)"
  have db1: "db1 = db\<lparr>rows := rows db @ [Row [crlf_to_lf ident, ''0'']],
         index := (index db)(ident \<mapsto> length (rows db)),
         version := (version db)(ident \<mapsto> 0)\<rparr>"
    by (simp add: db1_def Delete_accept [OF v])
  have v1: "ver db1 ident = 0" by (simp add: db1)
  have g1: "Get db1 ident = ([], Some ErrNotFound)" using v1 by (simp add: Get_def)
  have i1: "rec ! 0 \<noteq> ident" if "(rec, None) \<in> set (Iter db1)" for rec
  proof
    assume e: "rec ! 0 = ident"
    from that have "rec ! 1 \<noteq> ''0'' \<and> rec ! 1 = FormatInt (ver db1 (rec ! 0))"
      using Iter_scan_yield [of rec db1 "rows db1"] by (auto simp: Iter_def)
    then show False using e v1 by (simp add: FormatInt_0)
  qed
  have s1: "snd (Delete db ident) = None" by (simp add: Delete_accept [OF v])
  show ?thesis using s1 g1 i1 unfolding db1_def by blast
qed




lemma NewCSVDB_scan_append:
  "NewCSVDB_scan idx vers pos xs = Inr (i, v) \<Longrightarrow>
   NewCSVDB_scan idx vers pos (xs @ ys) = NewCSVDB_scan i v (pos + length xs) ys"
proof (induction idx vers pos xs rule: NewCSVDB_scan.induct)
  case (1 idx vers pos)
  then show ?case by simp
next
  case (2 idx vers pos rest)
  then show ?case by simp
next
  case (3 idx vers pos rec rest)
  show ?case
  proof (cases "length rec > 0")
    case True
    note pos = True
    show ?thesis
    proof (cases "length rec < 2")
      case True
      then show ?thesis using pos "3.prems" by simp
    next
      case False
      have k: "Suc pos + length rest = pos + length (Row rec # rest)" by simp
      from "3.prems" pos False
      have "NewCSVDB_scan (idx(rec ! 0 \<mapsto> pos)) (vers(rec ! 0 \<mapsto> fst (ParseInt (rec ! 1))))
              (Suc pos) rest = Inr (i, v)" by simp
      note ih = "3.IH"(1) [OF pos False this, unfolded k]
      have "NewCSVDB_scan idx vers pos ((Row rec # rest) @ ys) =
            NewCSVDB_scan (idx(rec ! 0 \<mapsto> pos)) (vers(rec ! 0 \<mapsto> fst (ParseInt (rec ! 1))))
              (Suc pos) (rest @ ys)" using pos False by simp
      also note ih
      finally show ?thesis .
    qed
  next
    case False
    have k: "Suc pos + length rest = pos + length (Row rec # rest)" by simp
    from "3.prems" False have "NewCSVDB_scan idx vers (Suc pos) rest = Inr (i, v)" by simp
    note ih = "3.IH"(2) [OF False this, unfolded k]
    have "NewCSVDB_scan idx vers pos ((Row rec # rest) @ ys) =
          NewCSVDB_scan idx vers (Suc pos) (rest @ ys)" using False by simp
    also note ih
    finally show ?thesis .
  qed
qed

lemma NewCSVDB_step:
  assumes inv: "NewCSVDB (rows db) = Inr db" and l: "2 \<le> length rr"
  shows "NewCSVDB (rows db @ [Row rr]) =
     Inr (db\<lparr>rows := rows db @ [Row rr],
             index := (index db)(rr ! 0 \<mapsto> length (rows db)),
             version := (version db)(rr ! 0 \<mapsto> fst (ParseInt (rr ! 1)))\<rparr>)"
proof -
  from inv obtain i v where s: "NewCSVDB_scan Map.empty Map.empty 0 (rows db) = Inr (i, v)"
    and d: "db = \<lparr>rows = rows db, index = i, version = v\<rparr>"
    by (auto simp: NewCSVDB_def split: sum.splits prod.splits)
  have iv: "index db = i" "version db = v" by (subst d, simp)+
  have "NewCSVDB_scan Map.empty Map.empty 0 (rows db @ [Row rr]) =
          Inr (i(rr ! 0 \<mapsto> length (rows db)), v(rr ! 0 \<mapsto> fst (ParseInt (rr ! 1))))"
    using l by (simp add: NewCSVDB_scan_append [OF s] len2D)
  then show ?thesis by (subst (3) d) (simp add: NewCSVDB_def iv)
qed

lemma accepted_op:
  assumes "apply_op db x = (db', None)"
  shows "\<exists>r. 2 \<le> length r \<and> r ! 0 = op_ident x \<and> crlf_to_lf (r ! 1) = r ! 1 \<and>
           db' = db\<lparr>rows := rows db @ [Row (map crlf_to_lf r)],
                     index := (index db)(r ! 0 \<mapsto> length (rows db)),
                     version := (version db)(r ! 0 \<mapsto> fst (ParseInt (r ! 1)))\<rparr>"
proof (cases x)
  case (OpCreate r)
  with assms have l: "2 \<le> length r" and v: "r ! 1 = ''1''" and a: "append db r = (db', None)"
    by (auto simp: Create_def split: if_splits)
  have i: "r ! 0 = op_ident x" using l OpCreate by (cases r) auto
  have "crlf_to_lf (r ! 1) = r ! 1" using v by simp
  then show ?thesis using l i a unfolding append_row [OF l] by blast
next
  case (OpUpdate r)
  with assms have l: "2 \<le> length r" and v: "r ! 1 = FormatInt (wrap64 (ver db (r ! 0) + 1))"
    and a: "append db r = (db', None)"
    by (auto simp: Update_def split: if_splits)
  have i: "r ! 0 = op_ident x" using l OpUpdate by (cases r) auto
  have "crlf_to_lf (r ! 1) = r ! 1" using v by (simp add: crlf_FormatInt)
  then show ?thesis using l i a unfolding append_row [OF l] by blast
next
  case (OpDelete ident)
  with assms have a: "append db [ident, ''0''] = (db', None)"
    by (auto simp: Delete_def split: if_splits)
  have l: "2 \<le> length [ident, ''0'']" by simp
  have "crlf_to_lf ([ident, ''0''] ! 1) = [ident, ''0''] ! 1" by simp
  moreover have "[ident, ''0''] ! 0 = op_ident x" using OpDelete by simp
  ultimately show ?thesis using l a unfolding append_row [OF l] by blast
qed

lemma run_ops_reopen:
  "run_ops db ops = Some db' \<Longrightarrow> NewCSVDB (rows db) = Inr db \<Longrightarrow>
   (\<forall>x \<in> set ops. crlf_to_lf (op_ident x) = op_ident x) \<Longrightarrow> NewCSVDB (rows db') = Inr db'"
proof (induction ops arbitrary: db)
  case Nil
  then show ?case by simp
next
  case (Cons x xs)
  from Cons.prems(1) obtain d where s: "apply_op db x = (d, None)" and t: "run_ops d xs = Some db'"
    by (auto split: prod.splits option.splits)
  from accepted_op [OF s] obtain r where l: "2 \<le> length r" and i: "r ! 0 = op_ident x"
    and c: "crlf_to_lf (r ! 1) = r ! 1"
    and d: "d = db\<lparr>rows := rows db @ [Row (map crlf_to_lf r)],
                     index := (index db)(r ! 0 \<mapsto> length (rows db)),
                     version := (version db)(r ! 0 \<mapsto> fst (ParseInt (r ! 1)))\<rparr>"
    by blast
  have ci: "crlf_to_lf (r ! 0) = r ! 0" using Cons.prems(3) i by simp
  have l': "2 \<le> length (map crlf_to_lf r)" using l by simp
  have "NewCSVDB (rows d) = Inr d"
    using NewCSVDB_step [OF Cons.prems(2) l'] l c ci by (simp add: d len2D)
  then show ?case using Cons.IH [OF t] Cons.prems(3) by simp
qed

lemma NewCSVDB_empty: "NewCSVDB (rows emptyDB) = Inr emptyDB"
  by (simp add: NewCSVDB_def emptyDB_def)

text \<open>
  Claim C4, as amended. For every sequence of Create, Update and Delete calls that the
  row log accepts one after the other (each returns no error, which every call that the
  contract admits does), starting from the empty log, in which no identifier contains
  CR LF: opening the log again from its file
  succeeds and rebuilds the very same index, so \<^verbatim>\<open>Get\<close> gives the same result for
  every identifier and \<^verbatim>\<open>Iter\<close> yields the same rows in the same order.

  Without the restriction the claim fails: the running log indexes a row under the
  identifier it was given, the reopened log under the identifier the csv reader returns,
  and the two differ when the identifier contains CR LF. The counterexample is the single
  call \<^verbatim>\<open>Create(Record{"a\r\nb", "1"})\<close>: before the reopen \<^verbatim>\<open>Get("a\r\nb")\<close> reports
  a corrupted index and \<^verbatim>\<open>Iter\<close> yields nothing, after it \<^verbatim>\<open>Get("a\r\nb")\<close> reports
  "record not found" and \<^verbatim>\<open>Iter\<close> yields the row.
\<close>

theorem reopen_same_results:
  assumes "run_ops emptyDB ops = Some db"
    and "\<forall>x \<in> set ops. crlf_to_lf (op_ident x) = op_ident x"
  shows "\<exists>db'. NewCSVDB (rows db) = Inr db' \<and> (\<forall>ident. Get db' ident = Get db ident) \<and>
           Iter db' = Iter db"
  using run_ops_reopen [OF assms(1) NewCSVDB_empty assms(2)] by simp

lemma FormatInt_2: "FormatInt 2 = ''2''"
  by (simp add: FormatInt_def fmt_nat.simps digit_char_def)

lemma wrap64_2: "wrap64 2 = 2" by (simp add: wrap64_def)

lemma ParseInt_2: "ParseInt ''2'' = (2, None)"
  by (simp add: ParseInt_def ParseUint_def digit_val_def)

theorem reopen_differs_cr_lf_identifier:
  "run_ops emptyDB [OpCreate [cr_lf_ident, ''1'']] = Some db_cr_lf \<and>
   Get db_cr_lf cr_lf_ident = ([], Some ErrCorruptedIndex) \<and>
   Iter db_cr_lf = [] \<and>
   NewCSVDB (rows db_cr_lf) = Inr db_cr_lf_reopened \<and>
   Get db_cr_lf_reopened cr_lf_ident = ([], Some ErrNotFound) \<and>
   Iter db_cr_lf_reopened = [([[CHR ''a'', CHR 0x0A, CHR ''b''], ''1''], None)]"
proof (intro conjI)
  show "run_ops emptyDB [OpCreate [cr_lf_ident, ''1'']] = Some db_cr_lf"
    by (simp add: Create_def append_row emptyDB_def ver_def ParseInt_1 cr_lf_ident_def db_cr_lf_def)
  show "Get db_cr_lf cr_lf_ident = ([], Some ErrCorruptedIndex)"
    by (simp add: Get_def read_at_def ver_def cr_lf_ident_def db_cr_lf_def)
  show "Iter db_cr_lf = []"
    by (simp add: Iter_def ver_def cr_lf_ident_def db_cr_lf_def FormatInt_0)
  show "NewCSVDB (rows db_cr_lf) = Inr db_cr_lf_reopened"
    by (simp add: NewCSVDB_def db_cr_lf_def db_cr_lf_reopened_def ParseInt_1)
  show "Get db_cr_lf_reopened cr_lf_ident = ([], Some ErrNotFound)"
    by (simp add: Get_def ver_def cr_lf_ident_def db_cr_lf_reopened_def)
  show "Iter db_cr_lf_reopened = [([[CHR ''a'', CHR 0x0A, CHR ''b''], ''1''], None)]"
    by (simp add: Iter_def ver_def db_cr_lf_reopened_def FormatInt_1)
qed

theorem reopen_same_results_witness:
  "\<exists>db. run_ops emptyDB ops_example = Some db \<and>
     (\<exists>db'. NewCSVDB (rows db) = Inr db' \<and> (\<forall>ident. Get db' ident = Get db ident) \<and>
        Iter db' = Iter db)"
proof -
  have "\<exists>db. run_ops emptyDB ops_example = Some db"
    by (simp add: ops_example_def Create_def Update_def Delete_def append_row emptyDB_def ver_def
        ParseInt_1 ParseInt_0 ParseInt_2 FormatInt_2 wrap64_2)
  then obtain db where r: "run_ops emptyDB ops_example = Some db" ..
  have c: "\<forall>x \<in> set ops_example. crlf_to_lf (op_ident x) = op_ident x"
    by (simp add: ops_example_def)
  from reopen_same_results [OF r c] r show ?thesis by blast
qed

section \<open>Facts about the schema\<close>

text \<open>
  Claim C9. For a field schema of type Number and a double \<open>v\<close>: validation accepts \<open>v\<close>
  when \<open>Min == 0\<close> and \<open>Max == 0\<close>; when \<open>Max < Min\<close> it accepts exactly the values
  with \<open>v >= Min\<close>; in every other case it accepts exactly the values with
  \<open>Min <= v <= Max\<close>. The comparisons are those of doubles, and \<open>v\<close>, \<open>Min\<close> and
  \<open>Max\<close> range over all doubles, the infinities and NaN included.
\<close>

theorem Validate_Number_range:
  assumes "Type field = Number"
  shows "(f_eq (FMin field) (Finite 0) \<and> f_eq (FMax field) (Finite 0) \<longrightarrow>
            Validate lib field (VNum v) = Inr True) \<and>
         (f_lt (FMax field) (FMin field) \<longrightarrow>
            Validate lib field (VNum v) = Inr (f_le (FMin field) v)) \<and>
         (\<not> (f_eq (FMin field) (Finite 0) \<and> f_eq (FMax field) (Finite 0)) \<and>
          \<not> f_lt (FMax field) (FMin field) \<longrightarrow>
            Validate lib field (VNum v) = Inr (f_le (FMin field) v \<and> f_le v (FMax field)))"
proof -
  have z: "\<not> (f_eq a (Finite 0) \<and> f_eq b (Finite 0))" if "f_lt b a" for a b
    using that by (cases a; cases b) auto
  show ?thesis using assms z [of "FMax field" "FMin field"]
    by (auto simp: Validate_def)
qed

theorem Validate_Number_range_witness:
  "Validate lib_example (field_example 0 0) (VNum (Finite 12345)) = Inr True \<and>
   Validate lib_example (field_example 1 0) (VNum (Finite 7)) = Inr True \<and>
   Validate lib_example (field_example 1 0) (VNum (Finite 0)) = Inr False \<and>
   Validate lib_example (field_example 5 10) (VNum (Finite 10)) = Inr True \<and>
   Validate lib_example (field_example 5 10) (VNum (Finite 11)) = Inr False"
proof -
  have t: "Type (field_example lo hi) = Number" for lo hi by (simp add: field_example_def)
  show ?thesis
    using Validate_Number_range [OF t, of 0 0 lib_example "Finite 12345"]
      Validate_Number_range [OF t, of 1 0 lib_example "Finite 7"]
      Validate_Number_range [OF t, of 1 0 lib_example "Finite 0"]
      Validate_Number_range [OF t, of 5 10 lib_example "Finite 10"]
      Validate_Number_range [OF t, of 5 10 lib_example "Finite 11"]
    by (simp add: field_example_def)
qed

lemma type_names_distinct [simp]:
  "Number \<noteq> Text" "Number \<noteq> List" "Text \<noteq> List" "Text \<noteq> Number" "List \<noteq> Number" "List \<noteq> Text"
  by (simp_all add: Number_def Text_def List_def)

lemma split_from_no_sep: "c \<notin> set s \<Longrightarrow> split_from cur s c = [rev cur @ s]"
  by (induction s arbitrary: cur) auto

lemma split_from_sep:
  "c \<notin> set x \<Longrightarrow> split_from cur (x @ c # rest) c = (rev cur @ x) # split_from [] rest c"
  by (induction x arbitrary: cur) auto

lemma Split_Join:
  "xs \<noteq> [] \<Longrightarrow> \<forall>x \<in> set xs. c \<notin> set x \<Longrightarrow> Split (Join xs [c]) c = xs"
proof (induction xs "[c]" rule: Join.induct)
  case 1
  then show ?case by simp
next
  case (2 x)
  then show ?case by (simp add: Split_def split_from_no_sep)
next
  case (3 x y ys)
  then have "Split (Join (y # ys) [c]) c = y # ys" by simp
  then show ?case using 3(3) by (simp add: Split_def split_from_sep)
qed

lemma Join_nonempty: "xs \<noteq> [] \<Longrightarrow> xs \<noteq> [[]] \<Longrightarrow> Join xs '','' \<noteq> []"
  by (induction xs "'',''" rule: Join.induct) auto

lemma Record_field_cell:
  assumes "Record_field lib field r = Inr cells" and "r (Field field) = Some v" and "v \<noteq> VNil"
  shows "(Type field = Number \<and> (\<exists>n. v = VNum n \<and> cells = [Sprintf_g lib n])) \<or>
         (Type field = Text \<and> (\<exists>t. v = VText t \<and> cells = [t])) \<or>
         (Type field = List \<and> (\<exists>xs. v = VList xs \<and> cells = [Join xs '','']))"
  using assms
  by (auto simp: Record_field_def lookup_def Validate_def Let_def
      split: sum.splits if_splits val.splits option.splits)

lemma Schema_Record_Cons:
  assumes "Schema_Record lib (field # s) r = Inr rec"
  obtains cells rest where "Record_field lib field r = Inr cells"
    and "Schema_Record lib s r = Inr rest" and "rec = cells @ rest"
  using assms by (auto split: sum.splits)

lemma roundtrip_fields:
  assumes "Schema_Record lib s r = Inr rec"
    and "\<forall>f \<in> set s. r (Field f) \<noteq> None"
    and "\<forall>k. r k \<noteq> Some VNil"
    and "\<forall>k xs. r k = Some (VList xs) \<longrightarrow> xs \<noteq> [[]] \<and> (\<forall>x \<in> set xs. CHR '','' \<notin> set x)"
    and "\<forall>k x. r k = Some (VNum x) \<longrightarrow> ParseFloat lib (Sprintf_g lib x) = Some x"
  shows "Resource_fields lib s rec acc = Inr (\<lambda>k. if k \<in> Field ` set s then r k else acc k)"
  using assms
proof (induction s arbitrary: rec acc)
  case Nil
  then show ?case by simp
next
  case (Cons field s)
  from Cons.prems(1) obtain cells rest where c: "Record_field lib field r = Inr cells"
    and s: "Schema_Record lib s r = Inr rest" and rec: "rec = cells @ rest"
    by (rule Schema_Record_Cons)
  from Cons.prems(2) obtain v where v: "r (Field field) = Some v" by auto
  with Cons.prems(3) have nn: "v \<noteq> VNil" by metis
  have ih: "Resource_fields lib s rest acc' =
              Inr (\<lambda>k. if k \<in> Field ` set s then r k else acc' k)" for acc'
    using Cons.IH [OF s] Cons.prems(2-5) by simp
  have step: "Resource_fields lib (field # s) rec acc =
                Resource_fields lib s rest (acc(Field field \<mapsto> v))"
    using Record_field_cell [OF c v nn]
  proof (elim disjE conjE exE)
    fix n assume "Type field = Number" "v = VNum n" "cells = [Sprintf_g lib n]"
    moreover from this v Cons.prems(5) have "ParseFloat lib (Sprintf_g lib n) = Some n" by simp
    ultimately show ?thesis by (simp add: rec)
  next
    fix t assume "Type field = Text" "v = VText t" "cells = [t]"
    then show ?thesis by (simp add: rec)
  next
    fix xs assume a: "Type field = List" "v = VList xs" "cells = [Join xs '','']"
    from a v Cons.prems(4) have l: "xs \<noteq> [[]]" "\<forall>x \<in> set xs. CHR '','' \<notin> set x" by auto
    show ?thesis
    proof (cases "xs = []")
      case True
      then show ?thesis using a by (simp add: rec)
    next
      case False
      then have "Join xs '','' \<noteq> []" using l(1) by (rule Join_nonempty)
      moreover have "Split (Join xs '','') CHR '','' = xs" using False l(2) by (rule Split_Join)
      ultimately show ?thesis using a by (simp add: rec)
    qed
  qed
  show ?case unfolding step ih using v by (auto intro!: ext)
qed

text \<open>
  Claim C3, as amended. Let \<^verbatim>\<open>Schema.Record\<close> accept the resource \<open>r\<close>, and let \<open>r\<close>
  have exactly the field names of the schema as its keys, none of them with the value
  nil, no list equal to the one-item list of the empty string, no list item with a comma
  in it, and only numbers that \<^verbatim>\<open>ParseFloat\<close> reads back from their \<^verbatim>\<open>%g\<close>
  rendering (Go guarantees this for every double but NaN, which is never equal to
  itself). Then \<^verbatim>\<open>Schema.Resource\<close> applied to the record returns \<open>r\<close>.

  The claim as stated, for every accepted resource, fails by design of the projection:
  a list is written as its items joined by commas with no escaping and read back by
  splitting at every comma, so the list of the one item \<open>''a,b''\<close> comes back as the two
  items \<open>''a''\<close> and \<open>''b''\<close> (the counterexample below). In the same way the list
  \<open>['''']\<close> comes back empty, a key outside the schema is dropped, and a missing or nil
  field comes back as the zero value of its type.
\<close>

theorem Record_Resource_roundtrip:
  assumes "Schema_Record lib s r = Inr rec"
    and "dom r = Field ` set s"
    and "\<forall>k. r k \<noteq> Some VNil"
    and "\<forall>k xs. r k = Some (VList xs) \<longrightarrow> xs \<noteq> [[]] \<and> (\<forall>x \<in> set xs. CHR '','' \<notin> set x)"
    and "\<forall>k x. r k = Some (VNum x) \<longrightarrow> ParseFloat lib (Sprintf_g lib x) = Some x"
  shows "Schema_Resource lib s rec = Inr r"
proof -
  have p: "\<forall>f \<in> set s. r (Field f) \<noteq> None" using assms(2) by blast
  have "(if k \<in> Field ` set s then r k else None) = r k" for k
    using assms(2) by (cases "r k") (auto simp: domIff [symmetric] simp del: domIff)
  then have "(\<lambda>k. if k \<in> Field ` set s then r k else None) = r" by (intro ext)
  then show ?thesis
    unfolding Schema_Resource_def roundtrip_fields [OF assms(1) p assms(3-5)] by simp
qed

theorem roundtrip_loses_comma_item:
  "Schema_Record lib_example [tags_field] [''tags'' \<mapsto> VList [''a,b'']] = Inr [''a,b''] \<and>
   Schema_Resource lib_example [tags_field] [''a,b''] = Inr [''tags'' \<mapsto> VList [''a'', ''b'']] \<and>
   [''tags'' \<mapsto> VList [''a'', ''b'']] \<noteq> [''tags'' \<mapsto> VList [''a,b'']]"
proof (intro conjI)
  show "Schema_Record lib_example [tags_field] [''tags'' \<mapsto> VList [''a,b'']] = Inr [''a,b'']"
    by (simp add: tags_field_def Record_field_def Validate_def lookup_def)
  show "Schema_Resource lib_example [tags_field] [''a,b''] = Inr [''tags'' \<mapsto> VList [''a'', ''b'']]"
    by (simp add: tags_field_def Schema_Resource_def Split_def)
  show "[''tags'' \<mapsto> VList [''a'', ''b'']] \<noteq> [''tags'' \<mapsto> VList [''a,b'']]"
  proof
    assume "[''tags'' \<mapsto> VList [''a'', ''b'']] = [''tags'' \<mapsto> VList [''a,b'']]"
    then have "VList [''a'', ''b''] = VList [''a,b'']" by (rule map_upd_eqD1)
    then show False by simp
  qed
qed

lemma lib_example_simps [simp]:
  "MatchString lib_example ''^.+$'' s = Some (s \<noteq> [])"
  "MatchString lib_example ''^.*$'' s = Some True"
  "Sprintf_g lib_example (Finite 1) = ''1''"
  "Sprintf_g lib_example (Finite 2) = ''2''"
  "ParseFloat lib_example ''1'' = Some (Finite 1)"
  "ParseFloat lib_example ''2'' = Some (Finite 2)"
  "float_add lib_example (Finite x) (Finite y) = Finite (x + y)"
  by (simp_all add: lib_example_def FormatInt_1 FormatInt_2 ParseInt_1 ParseInt_2)

lemma Record_book_example:
  "Schema_Record lib_example books_schema book_example = Inr [''b1'', ''1'', ''t'', ''x,y'']"
  by (simp add: books_schema_def book_example_def Record_field_def Validate_def lookup_def)

theorem Record_Resource_roundtrip_witness:
  "Schema_Record lib_example books_schema book_example = Inr [''b1'', ''1'', ''t'', ''x,y''] \<and>
   Schema_Resource lib_example books_schema [''b1'', ''1'', ''t'', ''x,y''] = Inr book_example"
proof -
  have d: "dom book_example = Field ` set books_schema"
    by (auto simp: books_schema_def book_example_def)
  have n: "\<forall>k. book_example k \<noteq> Some VNil" by (simp add: book_example_def)
  have l: "\<forall>k xs. book_example k = Some (VList xs) \<longrightarrow>
             xs \<noteq> [[]] \<and> (\<forall>x \<in> set xs. CHR '','' \<notin> set x)"
    by (auto simp: book_example_def split: if_splits)
  have f: "\<forall>k x. book_example k = Some (VNum x) \<longrightarrow>
             ParseFloat lib_example (Sprintf_g lib_example x) = Some x"
    by (auto simp: book_example_def split: if_splits)
  from Record_Resource_roundtrip [OF Record_book_example d n l f] Record_book_example
  show ?thesis by simp
qed

section \<open>Facts about the collection store\<close>











lemma book_example_v: "lookup book_example ''_v'' = VNum (Finite 1)"
  by (simp add: book_example_def lookup_def)















section \<open>Facts about authorization\<close>

lemma Authorize_rules_absent_user:
  "Authorize_rules lib s perms resource ident action None =
     (case find (\<lambda>p. rule_matches p resource action) perms of
        None \<Rightarrow> Some ErrUnauthorized
      | Some p \<Rightarrow> if rule_public p then None else Some ErrUnauthenticated)"
  by (induction perms) simp_all

text \<open>
  Claim C2, as amended. When \<^verbatim>\<open>Authorize\<close> is called with an absent user, the first
  rule in storage order that matches the collection and the action decides: access is
  granted when that rule is public, and the call fails with "unauthenticated" at once
  when it is not, without a look at the later rules. The call fails with "unauthorized"
  exactly when no rule matches.

  The claim as stated has the scan go on past a matching rule that is not public, so
  that a later public rule would still grant access. The code returns
  \<^verbatim>\<open>errors.New("unauthenticated")\<close> at that rule (\<^verbatim>\<open>if user == nil\<close>): in the
  counterexample below an admin-only read rule stands before a public read rule, and the
  anonymous read is refused.
\<close>

theorem Authorize_absent_user_first_match:
  assumes "Store_List lib s ''_permissions'' = (perms, None)"
  shows "Store_Authorize lib s resource ident action None =
     (case find (\<lambda>p. rule_matches p resource action) perms of
        None \<Rightarrow> Some ErrUnauthorized
      | Some p \<Rightarrow> if rule_public p then None else Some ErrUnauthenticated)"
  using assms by (simp add: Store_Authorize_def Authorize_rules_absent_user)

lemma Iter_permissions_db:
  "Iter permissions_db =
     [([''p1'', ''1'', ''books'', ''read'', [], ''admin''], None),
      ([''p2'', ''1'', ''books'', ''read'', [], []], None)]"
  by (simp add: Iter_def permissions_db_def ver_def FormatInt_1)

lemma Resource_rule_rows:
  "Schema_Resource lib_example permissions_schema [''p1'', ''1'', ''books'', ''read'', [], ''admin'']
     = Inr rule_admin_read"
  "Schema_Resource lib_example permissions_schema [''p2'', ''1'', ''books'', ''read'', [], []]
     = Inr rule_public_read"
  by (simp_all add: Schema_Resource_def permissions_schema_def rule_admin_read_def
      rule_public_read_def)

lemma Store_List_rules:
  "Store_List lib_example store_with_rules ''_permissions''
     = ([rule_admin_read, rule_public_read], None)"
  by (simp add: Store_List_def store_with_rules_def schema_of_def Iter_permissions_db
      Resource_rule_rows)

theorem Authorize_stops_at_first_match:
  "Store_List lib_example store_with_rules ''_permissions''
     = ([rule_admin_read, rule_public_read], None) \<and>
   rule_matches rule_admin_read ''books'' ''read'' \<and> \<not> rule_public rule_admin_read \<and>
   rule_matches rule_public_read ''books'' ''read'' \<and> rule_public rule_public_read \<and>
   Store_Authorize lib_example store_with_rules ''books'' [] ''read'' None
     = Some ErrUnauthenticated"
  by (simp add: Store_Authorize_def Store_List_rules rule_matches_def rule_public_def
      rule_admin_read_def rule_public_read_def lookup_def)

theorem Authorize_absent_user_first_match_witness:
  "Store_List lib_example store_with_rules ''_permissions''
     = ([rule_admin_read, rule_public_read], None) \<and>
   find (\<lambda>p. rule_matches p ''books'' ''delete'') [rule_admin_read, rule_public_read] = None \<and>
   Store_Authorize lib_example store_with_rules ''books'' ''b1'' ''delete'' None
     = Some ErrUnauthorized"
proof -
  have f: "find (\<lambda>p. rule_matches p ''books'' ''delete'') [rule_admin_read, rule_public_read] = None"
    by (simp add: rule_matches_def rule_admin_read_def rule_public_read_def lookup_def)
  from Authorize_absent_user_first_match [OF Store_List_rules, of "''books''" "''b1''" "''delete''"]
    f Store_List_rules
  show ?thesis by simp
qed

section \<open>Facts about the session signer\<close>

lemma bits_value_bound: "bits_value bs < 2 ^ length bs"
proof -
  have "foldl (\<lambda>a b. 2 * a + (if b then 1 else 0)) a bs < 2 ^ length bs * (a + 1)" for a :: nat
  proof (induction bs arbitrary: a)
    case Nil
    then show ?case by simp
  next
    case (Cons b bs)
    have "foldl (\<lambda>a b. 2 * a + (if b then 1 else 0)) (2 * a + (if b then 1 else 0)) bs
            < 2 ^ length bs * ((2 * a + (if b then 1 else 0)) + 1)" by (rule Cons.IH)
    also have "\<dots> \<le> 2 ^ length bs * (2 * (a + 1))" by simp
    finally show ?case by simp
  qed
  from this [of 0] show ?thesis by (simp add: bits_value_def)
qed

lemma groups5_length: "g \<in> set (groups5 bs) \<Longrightarrow> length g = 5"
proof (induction bs rule: groups5.induct)
  case (1 bs)
  show ?case
  proof (cases "bs = []")
    case True
    with 1(2) show ?thesis by (simp add: groups5.simps)
  next
    case False
    with 1(2) have "g = take 5 (bs @ replicate 4 False) \<or> g \<in> set (groups5 (drop 5 bs))"
      by (subst (asm) groups5.simps) simp
    then show ?thesis
    proof
      assume "g = take 5 (bs @ replicate 4 False)"
      moreover have "1 \<le> length bs" using False by (cases bs) simp_all
      ultimately show ?thesis by simp
    next
      assume "g \<in> set (groups5 (drop 5 bs))"
      with 1(1) False show ?thesis by simp
    qed
  qed
qed

lemma base32_alphabet_no_dot: "CHR ''.'' \<notin> set base32_alphabet"
  by (simp add: base32_alphabet_def)

lemma base32_encode_no_dot: "CHR ''.'' \<notin> set (base32_encode bytes)"
proof -
  have "base32_alphabet ! bits_value g \<noteq> CHR ''.''" if "g \<in> set (groups5 bs)" for g bs
  proof -
    have "bits_value g < 2 ^ length g" by (rule bits_value_bound)
    then have "bits_value g < length base32_alphabet"
      using groups5_length [OF that] by (simp add: base32_alphabet_def)
    then have "base32_alphabet ! bits_value g \<in> set base32_alphabet" by (rule nth_mem)
    then show ?thesis using base32_alphabet_no_dot by metis
  qed
  note a = this
  have "c \<noteq> CHR ''.''"
    if "c \<in> set (map (\<lambda>g. base32_alphabet ! bits_value g) (groups5 (concat (map byte_bits bytes))))"
    for c
    using that a by fastforce
  then show ?thesis by (fastforce simp: base32_encode_def Let_def)
qed

lemma session_sig_no_dot: "CHR ''.'' \<notin> set (session_sig sha SessionKey data)"
  using base32_encode_no_dot [of "sha (SessionKey @ data)"]
  by (auto simp: session_sig_def dest: in_set_takeD)

lemma base32_test_vectors:
  "base32_encode ''f'' = ''MY======''"
  "base32_encode ''foobar'' = ''MZXW6YTBOI======''"
  "base32_encode [] = []"
  by code_simp+

lemma split_from_length:
  "length (split_from cur s c) = Suc (length (filter (\<lambda>x. x = c) s))"
  by (induction s arbitrary: cur) auto

lemma Split_two: "c \<notin> set a \<Longrightarrow> c \<notin> set b \<Longrightarrow> Split (a @ c # b) c = [a, b]"
  by (simp add: Split_def split_from_sep split_from_no_sep)

lemma Split_many:
  "c \<in> set a \<Longrightarrow> length (Split (a @ c # b) c) \<noteq> 2"
proof -
  assume "c \<in> set a"
  then have "filter (\<lambda>x. x = c) a \<noteq> []" by (simp add: filter_empty_conv)
  then have "length (filter (\<lambda>x. x = c) a) \<noteq> 0" by simp
  then show ?thesis by (simp add: Split_def split_from_length del: length_0_conv)
qed

lemma FormatInt_no_sep: "CHR ''.'' \<notin> set (FormatInt t)" "CHR '':'' \<notin> set (FormatInt t)"
proof -
  have "CHR ''.'' \<notin> set ''-0123456789''" "CHR '':'' \<notin> set ''-0123456789''" by simp_all
  then show "CHR ''.'' \<notin> set (FormatInt t)" "CHR '':'' \<notin> set (FormatInt t)"
    using FormatInt_chars [of t] by blast+
qed

lemma Split_length_two:
  assumes "length (Split s c) = 2"
  obtains a b where "s = a @ c # b" and "Split s c = [a, b]"
proof -
  from assms have one: "length (filter (\<lambda>x. x = c) s) = 1"
    by (simp add: Split_def split_from_length)
  then have "filter (\<lambda>x. x = c) s \<noteq> []" by auto
  then have "c \<in> set s" by (auto simp: filter_empty_conv)
  then obtain a b where s: "s = a @ c # b" and a: "c \<notin> set a" by (auto dest: split_list_first)
  from a have "filter (\<lambda>x. x = c) a = []" by (auto simp: filter_empty_conv)
  with one s have "filter (\<lambda>x. x = c) b = []" by simp
  then have b: "c \<notin> set b" by (auto simp: filter_empty_conv)
  from Split_two [OF a b] s show ?thesis using that by simp
qed

lemma VerifySession_accepts_only:
  assumes "VerifySession sha key now session = (u, True)"
  shows "\<exists>stamp ts. session = u @ '':'' @ stamp @ ''.'' @ session_sig sha key (u @ '':'' @ stamp) \<and>
           ParseInt stamp = (ts, None) \<and> wrap64 (now - ts) < 86400"
proof -
  from assms have l: "length (Split session (CHR ''.'')) = 2"
    by (auto simp: VerifySession_def Let_def split: if_splits)
  then obtain data sig where s: "session = data @ CHR ''.'' # sig"
    and sp: "Split session (CHR ''.'') = [data, sig]" by (rule Split_length_two)
  from assms sp have sg: "sig = session_sig sha key data"
    by (auto simp: VerifySession_def Let_def split: if_splits)
  from assms sp sg have l2: "length (Split data (CHR '':'')) = 2"
    by (auto simp: VerifySession_def Let_def split: if_splits)
  then obtain name stamp where d: "data = name @ CHR '':'' # stamp"
    and sp2: "Split data (CHR '':'') = [name, stamp]" by (rule Split_length_two)
  from assms sp sg sp2 have "u = name \<and> snd (ParseInt stamp) = None \<and>
      wrap64 (now - fst (ParseInt stamp)) < 86400"
    by (auto simp: VerifySession_def Let_def split: if_splits prod.splits option.splits)
  then show ?thesis using s d sg by (intro exI [of _ stamp] exI [of _ "fst (ParseInt stamp)"])
      (simp add: prod_eq_iff)
qed

lemma VerifySession_rejects_empty:
  "snd (VerifySession sha key now session) = False \<Longrightarrow>
   VerifySession sha key now session = ([], False)"
  by (auto simp: VerifySession_def Let_def split: if_splits prod.splits option.splits)

text \<open>
  Claim C7. The claim has a token that \<^verbatim>\<open>SignSession\<close> produces for any user name at
  time \<open>t\<close> accepted by \<^verbatim>\<open>VerifySession\<close> at time \<open>t'\<close>, with that user name, when
  \<open>t' - t\<close> is less than 24 hours, and rejected when the time stamp is older. The code
  does so exactly for the user names that contain neither a dot nor a colon: for them
  the token is accepted if and only if \<open>t' - t\<close> (an \<^verbatim>\<open>int64\<close> difference) is less than
  86400 seconds. A token signed for a user name with a dot or a colon in it is rejected
  at any time, since \<^verbatim>\<open>VerifySession\<close> splits the token at every dot and the payload
  at every colon and wants two parts each time. The instance below signs and verifies
  \<^verbatim>\<open>john.doe\<close> in the same second. The two lemmas before the theorem state that
  whatever \<^verbatim>\<open>VerifySession\<close> accepts is a payload of user name and time stamp, less
  than 24 hours old, followed by its signature, and that a rejection returns the empty
  name.
\<close>

theorem sign_then_verify:
  assumes t: "int64 t"
  shows "VerifySession sha key t' (SignSession sha key t u) =
     (if CHR ''.'' \<notin> set u \<and> CHR '':'' \<notin> set u \<and> wrap64 (t' - t) < 86400
      then (u, True) else ([], False))"
proof -
  let ?data = "u @ '':'' @ FormatInt t"
  let ?sig = "session_sig sha key ?data"
  have tok: "SignSession sha key t u = ?data @ CHR ''.'' # ?sig"
    by (simp add: SignSession_def Let_def)
  show ?thesis
  proof (cases "CHR ''.'' \<in> set u")
    case True
    then have "CHR ''.'' \<in> set ?data" by simp
    from Split_many [OF this] have "length (Split (SignSession sha key t u) (CHR ''.'')) \<noteq> 2"
      unfolding tok .
    then show ?thesis using True by (simp add: VerifySession_def Let_def)
  next
    case False
    then have "CHR ''.'' \<notin> set ?data" using FormatInt_no_sep(1) [of t] by simp
    from Split_two [OF this session_sig_no_dot]
    have sp: "Split (SignSession sha key t u) (CHR ''.'') = [?data, ?sig]" unfolding tok .
    show ?thesis
    proof (cases "CHR '':'' \<in> set u")
      case True
      from Split_many [OF this] have "length (Split ?data (CHR '':'')) \<noteq> 2" by simp
      then show ?thesis using True by (simp add: VerifySession_def Let_def sp)
    next
      case c: False
      from Split_two [OF this FormatInt_no_sep(2)]
      have "Split ?data (CHR '':'') = [u, FormatInt t]" by simp
      then show ?thesis using c False
        by (simp add: VerifySession_def Let_def sp ParseInt_FormatInt [OF t])
    qed
  qed
qed

theorem dotted_username_never_verifies:
  "VerifySession sha_example ''key'' 1700000000
     (SignSession sha_example ''key'' 1700000000 ''john.doe'') = ([], False)"
proof -
  have "int64 1700000000" by (simp add: int64_def)
  from sign_then_verify [OF this, of sha_example "''key''" 1700000000 "''john.doe''"]
  show ?thesis by simp
qed

end
